theory Spec2Isabelle
  imports Complex_Main
begin

section \<open>Evaluation harness of snn.py: the model\<close>

text \<open>
  The embedding follows \<^verbatim>\<open>src/image classification/ImageNet/snn.py\<close>.
  Python floats and one-element float tensors are idealised as \<^typ>\<open>real\<close>
  (no rounding, no NaN, no infinity); Python integers are \<^typ>\<open>int\<close> or, where
  the source only ever has a length or a number of rows, \<^typ>\<open>nat\<close>.
  Every operation of Python or torch that raises is a branch that returns \<open>Inl\<close> of
  the exception, and an exception leaves the enclosing function at once.
\<close>

datatype py_error =
    ZeroDivisionError
  | RuntimeError
  | ValueError
  | KeyError

subsection \<open>AverageMeter (lines 381-396)\<close>

text \<open>
  \<^verbatim>\<open>reset\<close> assigns the four fields; \<open>sum_m\<close> is the field
  \<^verbatim>\<open>self.sum\<close> (renamed, \<open>sum\<close> being a constant of HOL).
\<close>

record AverageMeter =
  val :: real
  avg :: real
  sum_m :: real
  count :: int

definition reset :: "AverageMeter" where
  "reset = \<lparr>val = 0, avg = 0, sum_m = 0, count = 0\<rparr>"

text \<open>
  \<^verbatim>\<open>update(self, val, n=1)\<close>: three assignments, then
  \<^verbatim>\<open>self.avg = self.sum / self.count\<close>. The division of a Python float
  by the integer 0 raises ZeroDivisionError; the exception leaves \<^verbatim>\<open>validate\<close>,
  whose meters are local, so the meter as it stands at the raise is not observed again.
\<close>

definition update :: "AverageMeter \<Rightarrow> real \<Rightarrow> int \<Rightarrow> py_error + AverageMeter" where
  "update m v n =
     (let m1 = m\<lparr>val := v\<rparr>;
          m2 = m1\<lparr>sum_m := sum_m m1 + v * of_int n\<rparr>;
          m3 = m2\<lparr>count := count m2 + n\<rparr>
      in if count m3 = 0 then Inl ZeroDivisionError
         else Inr (m3\<lparr>avg := sum_m m3 / of_int (count m3)\<rparr>))"

subsection \<open>accuracy (lines 398-411)\<close>

text \<open>
  \<^verbatim>\<open>output\<close> is the logits matrix, one row per sample; \<^verbatim>\<open>target\<close>
  the label vector; \<^verbatim>\<open>topk\<close> the tuple of requested \<open>k\<close> (counts, so
  \<^typ>\<open>nat\<close>).

  \<^verbatim>\<open>output.topk(maxk, 1, True, True)\<close> is the library's: the parameter \<open>tk\<close>,
  which maps \<open>k\<close> and a row to the indices the library returns. What the library
  promises of them is \<open>is_topk\<close>: \<open>k\<close> distinct indices of the row, in descending order
  of score, and no index left out scores higher than one returned. The order among equal
  scores, and which of several equal scores at the boundary is returned, is left open.
\<close>

definition is_topk :: "real list \<Rightarrow> nat \<Rightarrow> nat list \<Rightarrow> bool" where
  "is_topk row k xs \<longleftrightarrow>
     length xs = k \<and> distinct xs \<and> (\<forall>i \<in> set xs. i < length row) \<and>
     sorted_wrt (\<lambda>a b. row ! b \<le> row ! a) xs \<and>
     (\<forall>j \<in> set [0..<length row]. j \<notin> set xs \<longrightarrow> (\<forall>i \<in> set xs. row ! j \<le> row ! i))"

definition valid_topk :: "(nat \<Rightarrow> real list \<Rightarrow> nat list) \<Rightarrow> bool" where
  "valid_topk tk \<longleftrightarrow> (\<forall>k row. k \<le> length row \<longrightarrow> is_topk row k (tk k row))"

text \<open>
  \<^verbatim>\<open>target.view(1, -1).expand_as(pred)\<close>: a label vector as long as the batch
  is repeated along the \<open>k\<close> axis; a vector of length one is broadcast over the batch;
  any other length raises.
\<close>

definition expand_target :: "int list \<Rightarrow> nat \<Rightarrow> py_error + int list" where
  "expand_target target b =
     (if length target = b then Inr target
      else if length target = 1 then Inr (replicate b (hd target))
      else Inl RuntimeError)"

text \<open>
  \<^verbatim>\<open>correct[:k].reshape(-1).float().sum(0, keepdim=True)\<close>: the number of
  true entries among the first \<open>k\<close> predictions of every sample (\<open>correct\<close> is kept
  per sample here, the transpose of the source's matrix).
\<close>

definition correct_k :: "bool list list \<Rightarrow> nat \<Rightarrow> nat" where
  "correct_k correct k = sum_list (map (\<lambda>c. length (filter id (take k c))) correct)"

text \<open>
  \<^verbatim>\<open>max(topk)\<close> of an empty tuple raises ValueError; \<open>topk\<close> of torch raises
  when \<open>maxk\<close> exceeds the number of classes; \<^verbatim>\<open>100.0 / batch_size\<close> raises
  for an empty label vector. (A matrix without rows is \<open>[]\<close> here and has lost its number
  of columns, so for it the model reaches the division.)
\<close>

definition accuracy ::
  "(nat \<Rightarrow> real list \<Rightarrow> nat list) \<Rightarrow> real list list \<Rightarrow> int list \<Rightarrow> nat list
     \<Rightarrow> py_error + real list" where
  "accuracy tk output target topk =
     (if topk = [] then Inl ValueError
      else
        let maxk = fold max (tl topk) (hd topk);
            batch_size = length target
        in if \<exists>row \<in> set output. length row < maxk then Inl RuntimeError
           else
             let pred = map (tk maxk) output
             in case expand_target target (length output) of
                  Inl e \<Rightarrow> Inl e
                | Inr tgt \<Rightarrow>
                    let correct = map2 (\<lambda>p t. map (\<lambda>j. int j = t) p) pred tgt
                    in if batch_size = 0 then Inl ZeroDivisionError
                       else Inr (map (\<lambda>k. real (correct_k correct k) * (100 / real batch_size)) topk))"

subsection \<open>Top-k accuracy as the specification words it\<close>

text \<open>
  The fraction of samples whose true label is among the \<open>k\<close> highest-scoring classes.
  A label is among them when it names a class and fewer than \<open>k\<close> classes score
  strictly higher (\<open>among_topk\<close>). It is among them however equal scores are ordered
  when fewer than \<open>k\<close> other classes score at least as high (\<open>surely_among\<close>). The two
  differ only for a label whose score is tied with another class's across the \<open>k\<close>-th
  place; \<open>tie_free\<close> says that this label is not such a one.
\<close>

definition higher :: "real list \<Rightarrow> nat \<Rightarrow> nat" where
  "higher row l = length (filter (\<lambda>j. row ! l < row ! j) [0..<length row])"

definition not_lower :: "real list \<Rightarrow> nat \<Rightarrow> nat" where
  "not_lower row l = length (filter (\<lambda>j. j \<noteq> l \<and> row ! l \<le> row ! j) [0..<length row])"

definition among_topk :: "nat \<Rightarrow> real list \<Rightarrow> int \<Rightarrow> bool" where
  "among_topk k row t \<longleftrightarrow> 0 \<le> t \<and> nat t < length row \<and> higher row (nat t) < k"

definition surely_among :: "nat \<Rightarrow> real list \<Rightarrow> int \<Rightarrow> bool" where
  "surely_among k row t \<longleftrightarrow> 0 \<le> t \<and> nat t < length row \<and> not_lower row (nat t) < k"

definition tie_free :: "nat \<Rightarrow> real list \<Rightarrow> int \<Rightarrow> bool" where
  "tie_free k row t \<longleftrightarrow> surely_among k row t \<or> \<not> among_topk k row t"

definition topk_fraction :: "nat \<Rightarrow> real list list \<Rightarrow> int list \<Rightarrow> real" where
  "topk_fraction k output target =
     real (length (filter (\<lambda>(row, t). among_topk k row t) (zip output target)))
       / real (length target)"

definition sure_fraction :: "nat \<Rightarrow> real list list \<Rightarrow> int list \<Rightarrow> real" where
  "sure_fraction k output target =
     real (length (filter (\<lambda>(row, t). surely_among k row t) (zip output target)))
       / real (length target)"

subsection \<open>reduce_tensor (lines 414-418)\<close>

text \<open>
  The fields of \<^verbatim>\<open>args\<close> that \<^verbatim>\<open>validate\<close> and
  \<^verbatim>\<open>reduce_tensor\<close> read.
\<close>

record args =
  distributed :: bool
  world_size :: nat
  batch_size :: int
  local_rank :: int
  print_freq :: int

text \<open>
  \<^verbatim>\<open>dist.all_reduce(rt, op=SUM)\<close> replaces the tensor of this rank by the sum of
  the tensors that all ranks of the group pass to the same call; \<open>peers\<close> are the
  tensors of the other ranks. The collective is taken to return (a rank that never
  arrives blocks it; that is outside the model). The sum is then divided by
  \<^verbatim>\<open>args.world_size\<close>, which a process group makes at least 1.
\<close>

definition reduce_tensor :: "args \<Rightarrow> real \<Rightarrow> real list \<Rightarrow> real" where
  "reduce_tensor a tensor peers = (tensor + sum_list peers) / real (world_size a)"

subsection \<open>validate (lines 320-376)\<close>

text \<open>
  What one pass of the loop takes from outside: the batch the loader yields
  (\<open>data\<close>, its rows, and \<open>label\<close>), the (loss, prec1, prec5) tensors the other ranks
  pass to the three collectives of this pass (\<open>others\<close>), and the clock difference
  \<^verbatim>\<open>time.time() - end\<close> (\<open>elapsed\<close>).
\<close>

record 'x iteration =
  data :: "'x list"
  label :: "int list"
  others :: "(real \<times> real \<times> real) list"
  elapsed :: real

record meters =
  batch_time :: AverageMeter
  losses :: AverageMeter
  top1 :: AverageMeter
  top5 :: AverageMeter

text \<open>
  Lines 338-342. The classifier and the criterion are the caller's: parameters that
  return a value or raise.
\<close>

definition local_metrics ::
  "(nat \<Rightarrow> real list \<Rightarrow> nat list) \<Rightarrow> ('x list \<Rightarrow> py_error + real list list) \<Rightarrow> (real list list \<Rightarrow> int list \<Rightarrow> py_error + real)
     \<Rightarrow> 'x iteration \<Rightarrow> py_error + (real \<times> real \<times> real)" where
  "local_metrics tk model criterion it =
     (case model (data it) of
        Inl e \<Rightarrow> Inl e
      | Inr output \<Rightarrow>
          (case criterion output (label it) of
             Inl e \<Rightarrow> Inl e
           | Inr loss \<Rightarrow>
               (case accuracy tk output (label it) [1, 5] of
                  Inl e \<Rightarrow> Inl e
                | Inr res \<Rightarrow>
                    (case res of
                       [prec1, prec5] \<Rightarrow> Inr (loss, prec1, prec5)
                     | _ \<Rightarrow> Inl ValueError))))"

text \<open>Lines 344-349: the three values are reduced in distributed mode only.\<close>

definition reduce_metrics ::
  "args \<Rightarrow> real \<times> real \<times> real \<Rightarrow> (real \<times> real \<times> real) list \<Rightarrow> real \<times> real \<times> real" where
  "reduce_metrics a m others_m =
     (case m of (loss, prec1, prec5) \<Rightarrow>
        if distributed a
        then (reduce_tensor a loss (map fst others_m),
              reduce_tensor a prec1 (map (fst \<circ> snd) others_m),
              reduce_tensor a prec5 (map (snd \<circ> snd) others_m))
        else (loss, prec1, prec5))"

text \<open>Lines 351-353: each meter is updated with weight \<^verbatim>\<open>input.size(0)\<close>.\<close>

definition record_metrics :: "meters \<Rightarrow> real \<times> real \<times> real \<Rightarrow> int \<Rightarrow> py_error + meters" where
  "record_metrics ms m n =
     (case m of (reduced_loss, prec1, prec5) \<Rightarrow>
        (case update (losses ms) reduced_loss n of
           Inl e \<Rightarrow> Inl e
         | Inr l \<Rightarrow>
             (case update (top1 ms) prec1 n of
                Inl e \<Rightarrow> Inl e
              | Inr t1 \<Rightarrow>
                  (case update (top5 ms) prec5 n of
                     Inl e \<Rightarrow> Inl e
                   | Inr t5 \<Rightarrow> Inr (ms\<lparr>losses := l, top1 := t1, top5 := t5\<rparr>)))))"

text \<open>
  Lines 356-371: the time meter, then the progress line of rank 0, whose condition
  \<^verbatim>\<open>i % args.print_freq\<close> and whose two speeds
  \<^verbatim>\<open>world_size * batch_size / batch_time.val\<close> and \<^verbatim>\<open>... / batch_time.avg\<close>
  divide. The printed text itself is not modelled.
\<close>

definition record_time :: "args \<Rightarrow> nat \<Rightarrow> meters \<Rightarrow> real \<Rightarrow> py_error + meters" where
  "record_time a i ms t =
     (case update (batch_time ms) t 1 of
        Inl e \<Rightarrow> Inl e
      | Inr bt \<Rightarrow>
          if local_rank a = 0
          then (if print_freq a = 0 then Inl ZeroDivisionError
                else if int i mod print_freq a = 0 \<and> (val bt = 0 \<or> avg bt = 0)
                then Inl ZeroDivisionError
                else Inr (ms\<lparr>batch_time := bt\<rparr>))
          else Inr (ms\<lparr>batch_time := bt\<rparr>))"

text \<open>
  The body of the loop, in the order of the source: line 334 divides by
  \<^verbatim>\<open>args.batch_size\<close> first.
\<close>

definition validate_step ::
  "args \<Rightarrow> (nat \<Rightarrow> real list \<Rightarrow> nat list) \<Rightarrow> ('x list \<Rightarrow> py_error + real list list) \<Rightarrow> (real list list \<Rightarrow> int list \<Rightarrow> py_error + real)
     \<Rightarrow> nat \<Rightarrow> 'x iteration \<Rightarrow> meters \<Rightarrow> py_error + meters" where
  "validate_step a tk model criterion i it ms =
     (if batch_size a = 0 then Inl ZeroDivisionError
      else case local_metrics tk model criterion it of
             Inl e \<Rightarrow> Inl e
           | Inr m \<Rightarrow>
               (case record_metrics ms (reduce_metrics a m (others it)) (int (length (data it))) of
                  Inl e \<Rightarrow> Inl e
                | Inr ms1 \<Rightarrow> record_time a i ms1 (elapsed it)))"

text \<open>
  \<^verbatim>\<open>for i, data in enumerate(val_loader)\<close>: the loader is the finite sequence of
  what its \<^verbatim>\<open>__next__\<close> does, batch by batch: it yields (\<open>Inr\<close>) or raises
  (\<open>Inl\<close>). The loop has no handler, so an exception of the loader or of the body
  leaves \<^verbatim>\<open>validate\<close>.
\<close>

fun validate_loop ::
  "args \<Rightarrow> (nat \<Rightarrow> real list \<Rightarrow> nat list) \<Rightarrow> ('x list \<Rightarrow> py_error + real list list) \<Rightarrow> (real list list \<Rightarrow> int list \<Rightarrow> py_error + real)
     \<Rightarrow> nat \<Rightarrow> (py_error + 'x iteration) list \<Rightarrow> meters \<Rightarrow> py_error + meters" where
  "validate_loop a tk model criterion i [] ms = Inr ms"
| "validate_loop a tk model criterion i (Inl e # rest) ms = Inl e"
| "validate_loop a tk model criterion i (Inr it # rest) ms =
     (case validate_step a tk model criterion i it ms of
        Inl e \<Rightarrow> Inl e
      | Inr ms' \<Rightarrow> validate_loop a tk model criterion (Suc i) rest ms')"

definition fresh_meters :: meters where
  "fresh_meters = \<lparr>batch_time = reset, losses = reset, top1 = reset, top5 = reset\<rparr>"

definition validate ::
  "args \<Rightarrow> (nat \<Rightarrow> real list \<Rightarrow> nat list) \<Rightarrow> ('x list \<Rightarrow> py_error + real list list) \<Rightarrow> (real list list \<Rightarrow> int list \<Rightarrow> py_error + real)
     \<Rightarrow> (py_error + 'x iteration) list \<Rightarrow> py_error + real list" where
  "validate a tk model criterion val_loader =
     (case validate_loop a tk model criterion 0 val_loader fresh_meters of
        Inl e \<Rightarrow> Inl e
      | Inr ms \<Rightarrow> Inr [avg (top1 ms), avg (top5 ms)])"

text \<open>The number of rows a loader yields: the sum of \<^verbatim>\<open>input.size(0)\<close>.\<close>

definition rows_yielded :: "(py_error + 'x iteration) list \<Rightarrow> nat" where
  "rows_yielded val_loader =
     sum_list (map (\<lambda>f. case f of Inl e \<Rightarrow> 0 | Inr it \<Rightarrow> length (data it)) val_loader)"

text \<open>The rows themselves, in the order in which they are yielded.\<close>

definition rows_of :: "(py_error + 'x iteration) list \<Rightarrow> 'x list" where
  "rows_of val_loader =
     concat (map (\<lambda>f. case f of Inl e \<Rightarrow> [] | Inr it \<Rightarrow> data it) val_loader)"

subsection \<open>The reader as lines 89-94 and 310 configure it\<close>

text \<open>
  The reader and its iterator are the library's. Lines 89-94 give it
  \<^verbatim>\<open>shard_id\<close>, \<^verbatim>\<open>num_shards\<close>, no shuffling (evaluation) and
  \<^verbatim>\<open>pad_last_batch=True\<close>; line 310 gives the iterator
  \<^verbatim>\<open>LastBatchPolicy.PARTIAL\<close>. So configured, the library cuts the \<open>T\<close>
  samples, in their fixed order, into \<open>W\<close> consecutive shards, shard \<open>S\<close> running from
  \<open>floor(S * T / W)\<close> up to \<open>floor((S + 1) * T / W)\<close>; it pads a shorter shard by
  repeating a sample, so that every rank has the same number of batches, and the
  iterator drops the padding rows from the batch it yields. What rank \<open>S\<close> is yielded
  over a pass are therefore the samples of \<open>shard T W S\<close>, once each; samples are named
  by their place in the dataset.
\<close>

definition shard :: "nat \<Rightarrow> nat \<Rightarrow> nat \<Rightarrow> nat list" where
  "shard T W S = [S * T div W ..< Suc S * T div W]"

subsection \<open>resume (lines 266-281)\<close>

text \<open>
  The file system maps a path to what is there; \<^verbatim>\<open>os.path.isfile\<close> holds for a
  regular file only. \<^verbatim>\<open>torch.load\<close> and the two \<^verbatim>\<open>load_state_dict\<close>
  are the library's: parameters that return or raise. A checkpoint is a dictionary; a
  missing key raises KeyError. The values are opaque (\<open>'v\<close>): Python stores what the
  dictionary holds.
\<close>

datatype 'b fs_entry = RegularFile 'b | Directory

record ('v, 'm, 'o) run_state =
  start_epoch :: 'v
  best_prec1 :: 'v
  model_obj :: 'm
  optimizer_obj :: 'o

definition resume ::
  "string \<Rightarrow> (string \<rightharpoonup> 'b fs_entry) \<Rightarrow> ('b \<Rightarrow> py_error + (string \<rightharpoonup> 'v))
     \<Rightarrow> ('m \<Rightarrow> 'v \<Rightarrow> py_error + 'm) \<Rightarrow> ('o \<Rightarrow> 'v \<Rightarrow> py_error + 'o)
     \<Rightarrow> ('v, 'm, 'o) run_state \<Rightarrow> py_error + ('v, 'm, 'o) run_state" where
  "resume path fs torch_load load_model load_optimizer st =
     (case fs path of
        Some (RegularFile blob) \<Rightarrow>
          (case torch_load blob of
             Inl e \<Rightarrow> Inl e
           | Inr checkpoint \<Rightarrow>
               (case checkpoint ''epoch'' of
                  None \<Rightarrow> Inl KeyError
                | Some ep \<Rightarrow>
                    (case checkpoint ''best_prec1'' of
                       None \<Rightarrow> Inl KeyError
                     | Some bp \<Rightarrow>
                         (case checkpoint ''state_dict'' of
                            None \<Rightarrow> Inl KeyError
                          | Some sd \<Rightarrow>
                              (case load_model (model_obj st) sd of
                                 Inl e \<Rightarrow> Inl e
                               | Inr m' \<Rightarrow>
                                   (case checkpoint ''optimizer'' of
                                      None \<Rightarrow> Inl KeyError
                                    | Some od \<Rightarrow>
                                        (case load_optimizer (optimizer_obj st) od of
                                           Inl e \<Rightarrow> Inl e
                                         | Inr o' \<Rightarrow>
                                             Inr \<lparr>start_epoch = ep, best_prec1 = bp,
                                                  model_obj = m', optimizer_obj = o'\<rparr>)))))))
      | _ \<Rightarrow> Inr st)"

subsection \<open>Auxiliary notions for the statements\<close>

text \<open>The meter that a successful \<^verbatim>\<open>update(v, n)\<close> leaves behind.\<close>

definition accumulate :: "AverageMeter \<Rightarrow> real \<Rightarrow> int \<Rightarrow> AverageMeter" where
  "accumulate m v n =
     m\<lparr>val := v,
       sum_m := sum_m m + v * of_int n,
       count := count m + n,
       avg := (sum_m m + v * of_int n) / of_int (count m + n)\<rparr>"

text \<open>
  Conditions under which a pass of the loop raises nothing: the batch is not empty and
  has one label per row, the classifier returns one row of at least five logits per
  input row, the criterion returns, and the clock has advanced. The meters start with
  counts and elapsed time that are not negative.
\<close>

definition well_formed_batch ::
  "('x list \<Rightarrow> py_error + real list list) \<Rightarrow> (real list list \<Rightarrow> int list \<Rightarrow> py_error + real)
     \<Rightarrow> 'x iteration \<Rightarrow> bool" where
  "well_formed_batch model criterion it \<longleftrightarrow>
     data it \<noteq> [] \<and> length (label it) = length (data it) \<and> 0 < elapsed it \<and>
     (case model (data it) of
        Inl e \<Rightarrow> False
      | Inr output \<Rightarrow>
          length output = length (data it) \<and> (\<forall>row \<in> set output. 5 \<le> length row) \<and>
          \<not> isl (criterion output (label it)))"

definition well_formed_loader ::
  "('x list \<Rightarrow> py_error + real list list) \<Rightarrow> (real list list \<Rightarrow> int list \<Rightarrow> py_error + real)
     \<Rightarrow> (py_error + 'x iteration) list \<Rightarrow> bool" where
  "well_formed_loader model criterion val_loader \<longleftrightarrow>
     list_all (\<lambda>f. case f of Inl e \<Rightarrow> False | Inr it \<Rightarrow> well_formed_batch model criterion it)
       val_loader"

definition meters_ok :: "meters \<Rightarrow> bool" where
  "meters_ok ms \<longleftrightarrow>
     0 \<le> count (losses ms) \<and> 0 \<le> count (top1 ms) \<and> 0 \<le> count (top5 ms) \<and>
     0 \<le> count (batch_time ms) \<and> 0 \<le> sum_m (batch_time ms)"

subsection \<open>Concrete runs\<close>

text \<open>
  One \<open>topk\<close>: the indices sorted by descending score, cut after \<open>k\<close>. It serves
  where a run is evaluated; the rows of those runs have no equal scores, so every
  \<open>topk\<close> that keeps the library's promise returns the same indices on them.
\<close>

definition topk_indices :: "nat \<Rightarrow> real list \<Rightarrow> nat list" where
  "topk_indices k row = take k (sort_key (\<lambda>j. - (row ! j)) [0..<length row])"

text \<open>
  A classifier over six classes that scores class 0 highest for every sample, and a
  criterion whose loss is 5 on a batch of two samples and 12.5 on any other batch.
\<close>

definition example_model :: "nat list \<Rightarrow> py_error + real list list" where
  "example_model rows = Inr (map (\<lambda>r. [6, 5, 4, 3, 2, 1]) rows)"

definition example_criterion :: "real list list \<Rightarrow> int list \<Rightarrow> py_error + real" where
  "example_criterion output target = Inr (if length target = 2 then 5 else 25 / 2)"

text \<open>
  Two ranks, one batch each. Rank A has 2 samples of loss 5 (local sum 10, count 2);
  rank B has 8 samples of loss 12.5 (local sum 100, count 8). Each rank's \<open>others\<close> are
  the local (loss, prec1, prec5) of the other rank.
\<close>

definition rank_A :: "args \<times> nat iteration" where
  "rank_A =
     (\<lparr>distributed = True, world_size = 2, batch_size = 8, local_rank = 0, print_freq = 10\<rparr>,
      \<lparr>data = [0, 1], label = [0, 0], others = [(25 / 2, 50, 100)], elapsed = 1\<rparr>)"

definition rank_B :: "args \<times> nat iteration" where
  "rank_B =
     (\<lparr>distributed = True, world_size = 2, batch_size = 8, local_rank = 1, print_freq = 10\<rparr>,
      \<lparr>data = [2, 3, 4, 5, 6, 7, 8, 9], label = [0, 1, 0, 1, 0, 1, 0, 1],
        others = [(5, 100, 100)], elapsed = 1\<rparr>)"

text \<open>
  Ten samples over three ranks with batch size 4. The shards hold samples 0-2, 3-5 and
  6-9; every rank has one batch, and the padding row of the first two is not yielded.
  Each rank's \<open>others\<close> are the local (loss, prec1, prec5) of the two other ranks.
\<close>

definition three_ranks :: "(args \<times> (py_error + nat iteration) list) list" where
  "three_ranks =
     [(\<lparr>distributed = True, world_size = 3, batch_size = 4, local_rank = 0, print_freq = 10\<rparr>,
       [Inr \<lparr>data = shard 10 3 0, label = [0, 0, 1],
              others = [(25 / 2, 200 / 3, 100), (25 / 2, 50, 75)], elapsed = 1\<rparr>]),
      (\<lparr>distributed = True, world_size = 3, batch_size = 4, local_rank = 1, print_freq = 10\<rparr>,
       [Inr \<lparr>data = shard 10 3 1, label = [0, 1, 0],
              others = [(25 / 2, 200 / 3, 100), (25 / 2, 50, 75)], elapsed = 1\<rparr>]),
      (\<lparr>distributed = True, world_size = 3, batch_size = 4, local_rank = 2, print_freq = 10\<rparr>,
       [Inr \<lparr>data = shard 10 3 2, label = [0, 1, 0, 5],
              others = [(25 / 2, 200 / 3, 100), (25 / 2, 200 / 3, 100)], elapsed = 1\<rparr>])]"

text \<open>A single process and a loader of two batches, of 4 and of 2 rows.\<close>

definition single_process :: args where
  "single_process =
     \<lparr>distributed = False, world_size = 1, batch_size = 4, local_rank = 0, print_freq = 1\<rparr>"

definition first_batch :: "nat iteration" where
  "first_batch = \<lparr>data = [0, 1, 2, 3], label = [0, 0, 1, 5], others = [], elapsed = 1\<rparr>"

definition second_batch :: "nat iteration" where
  "second_batch = \<lparr>data = [4, 5], label = [0, 0], others = [], elapsed = 1 / 2\<rparr>"

text \<open>A file system with one checkpoint file, and a library that reads it.\<close>

definition example_checkpoint :: "string \<rightharpoonup> nat" where
  "example_checkpoint =
     [''epoch'' \<mapsto> 3, ''best_prec1'' \<mapsto> 71, ''state_dict'' \<mapsto> 11, ''optimizer'' \<mapsto> 13]"

definition example_fs :: "string \<rightharpoonup> nat fs_entry" where
  "example_fs = [''checkpoint.pth.tar'' \<mapsto> RegularFile 7]"

definition example_load :: "nat \<Rightarrow> py_error + (string \<rightharpoonup> nat)" where
  "example_load blob = (if blob = 7 then Inr example_checkpoint else Inl RuntimeError)"

definition example_load_state :: "nat \<Rightarrow> nat \<Rightarrow> py_error + nat" where
  "example_load_state obj sd = Inr sd"

section \<open>Properties of AverageMeter\<close>

text \<open>
  C3. For a running statistic with fields (sum, count), a value \<open>v\<close> and a weight \<open>n\<close>
  whose new total weight \<open>count + n\<close> is not zero (the division is defined),
  \<^verbatim>\<open>update(v, n)\<close> returns the same statistic with \<open>val\<close> set to \<open>v\<close>, \<open>sum\<close>
  to \<open>sum + v * n\<close>, \<open>count\<close> to \<open>count + n\<close> and \<open>avg\<close> to the new sum divided
  by the new count. No other field exists, and the function takes and returns one
  meter only: nothing of another rank enters.
\<close>

theorem update_sets_fields:
  assumes "count m + n \<noteq> 0"
  shows "update m v n =
     Inr (m\<lparr>val := v,
            sum_m := sum_m m + v * of_int n,
            count := count m + n,
            avg := (sum_m m + v * of_int n) / of_int (count m + n)\<rparr>)"
  using assms by (simp add: update_def Let_def)

theorem update_sets_fields_witness:
  "count \<lparr>val = 1, avg = 2, sum_m = 4, count = 2\<rparr> + 3 \<noteq> 0 \<and>
   update \<lparr>val = 1, avg = 2, sum_m = 4, count = 2\<rparr> 7 3 =
     Inr \<lparr>val = 7, avg = 5, sum_m = 25, count = 5\<rparr>"
  using update_sets_fields [of "\<lparr>val = 1, avg = 2, sum_m = 4, count = 2\<rparr>" 3 7]
  by simp

text \<open>
  C4. For every value \<open>v\<close>, \<^verbatim>\<open>reset()\<close> followed by one
  \<^verbatim>\<open>update(v, 1)\<close> returns a meter whose \<open>avg\<close> is \<open>v\<close>.
\<close>

theorem reset_update_avg:
  "\<exists>m. update reset v 1 = Inr m \<and> avg m = v"
  by (simp add: update_def reset_def Let_def)

text \<open>
  C10. For every value \<open>v\<close>, \<^verbatim>\<open>update(v, 0)\<close> on a freshly reset meter
  raises ZeroDivisionError: the average is recomputed with \<open>count = 0\<close> and nothing
  guards the division.
\<close>

theorem update_zero_weight_raises:
  "update reset v 0 = Inl ZeroDivisionError"
  by (simp add: update_def reset_def Let_def)

section \<open>Properties of accuracy\<close>

subsection \<open>What the promise of topk gives for one label\<close>

lemma higher_card: "higher row l = card {j. j < length row \<and> row ! l < row ! j}"
proof -
  have "{j. row ! l < row ! j} \<inter> set [0..<length row] = {j. j < length row \<and> row ! l < row ! j}"
    by auto
  then show ?thesis by (simp add: higher_def distinct_length_filter)
qed

lemma not_lower_card:
  "not_lower row l = card {j. j < length row \<and> j \<noteq> l \<and> row ! l \<le> row ! j}"
proof -
  have "{j. j \<noteq> l \<and> row ! l \<le> row ! j} \<inter> set [0..<length row] =
        {j. j < length row \<and> j \<noteq> l \<and> row ! l \<le> row ! j}"
    by auto
  then show ?thesis by (simp add: not_lower_def distinct_length_filter)
qed

lemma in_take_higher:
  assumes tk: "is_topk row maxk xs" and k: "k \<le> maxk" and l: "l \<in> set (take k xs)"
  shows "l < length row \<and> higher row l < k"
proof -
  from tk have len: "length xs = maxk" and d: "distinct xs"
    and bound: "\<forall>i \<in> set xs. i < length row"
    and srt: "sorted_wrt (\<lambda>a b. row ! b \<le> row ! a) xs"
    and rest: "\<forall>j \<in> set [0..<length row]. j \<notin> set xs \<longrightarrow> (\<forall>i \<in> set xs. row ! j \<le> row ! i)"
    by (auto simp: is_topk_def)
  from l obtain p where p: "p < k" "p < length xs" "xs ! p = l"
    by (auto simp: in_set_conv_nth)
  then have lx: "l \<in> set xs" by auto
  have sub: "{j. j < length row \<and> row ! l < row ! j} \<subseteq> set (take p xs)"
  proof
    fix j assume "j \<in> {j. j < length row \<and> row ! l < row ! j}"
    then have j: "j < length row" "row ! l < row ! j" by auto
    have "j \<in> set xs"
    proof (rule ccontr)
      assume "j \<notin> set xs"
      with rest j(1) lx have "row ! j \<le> row ! l" by auto
      with j(2) show False by simp
    qed
    then obtain q where q: "q < length xs" "xs ! q = j" by (auto simp: in_set_conv_nth)
    have "q < p"
    proof (rule ccontr)
      assume "\<not> q < p"
      then consider "q = p" | "p < q" by linarith
      then show False
      proof cases
        case 1
        with p q j show ?thesis by simp
      next
        case 2
        with srt q(1) have "row ! (xs ! q) \<le> row ! (xs ! p)"
          by (simp add: sorted_wrt_iff_nth_less)
        with p q j show ?thesis by simp
      qed
    qed
    with q show "j \<in> set (take p xs)" by (auto simp: in_set_conv_nth)
  qed
  have "card {j. j < length row \<and> row ! l < row ! j} \<le> card (set (take p xs))"
    by (rule card_mono [OF _ sub]) simp
  also have "\<dots> \<le> length (take p xs)" by (rule card_length)
  also have "\<dots> \<le> p" by simp
  finally have "higher row l < k" using p(1) by (simp add: higher_card)
  with bound lx show ?thesis by simp
qed

lemma not_lower_in_take:
  assumes tk: "is_topk row maxk xs" and k: "k \<le> maxk" and l: "l < length row"
    and nl: "not_lower row l < k"
  shows "l \<in> set (take k xs)"
proof (rule ccontr)
  assume out: "l \<notin> set (take k xs)"
  from tk have len: "length xs = maxk" and d: "distinct xs"
    and bound: "\<forall>i \<in> set xs. i < length row"
    and srt: "sorted_wrt (\<lambda>a b. row ! b \<le> row ! a) xs"
    and rest: "\<forall>j \<in> set [0..<length row]. j \<notin> set xs \<longrightarrow> (\<forall>i \<in> set xs. row ! j \<le> row ! i)"
    by (auto simp: is_topk_def)
  have sub: "set (take k xs) \<subseteq> {j. j < length row \<and> j \<noteq> l \<and> row ! l \<le> row ! j}"
  proof
    fix i assume i: "i \<in> set (take k xs)"
    then obtain q where q: "q < k" "q < length xs" "xs ! q = i"
      by (auto simp: in_set_conv_nth)
    then have ix: "i \<in> set xs" by auto
    have "row ! l \<le> row ! i"
    proof (cases "l \<in> set xs")
      case False
      with rest l ix show ?thesis by auto
    next
      case True
      then obtain p where p: "p < length xs" "xs ! p = l" by (auto simp: in_set_conv_nth)
      have "\<not> p < k" using out p by (auto simp: in_set_conv_nth)
      then have "q < p" using q(1) by simp
      with srt p(1) have "row ! (xs ! p) \<le> row ! (xs ! q)"
        by (simp add: sorted_wrt_iff_nth_less)
      with p q show ?thesis by simp
    qed
    moreover have "i \<noteq> l" using i out by auto
    moreover have "i < length row" using bound ix by simp
    ultimately show "i \<in> {j. j < length row \<and> j \<noteq> l \<and> row ! l \<le> row ! j}" by simp
  qed
  have "card (set (take k xs)) = k"
    using d k len by (simp add: distinct_card)
  moreover have "card (set (take k xs)) \<le> card {j. j < length row \<and> j \<noteq> l \<and> row ! l \<le> row ! j}"
    by (rule card_mono [OF _ sub]) simp
  ultimately show False using nl by (simp add: not_lower_card)
qed

subsection \<open>Hits of one sample and of the batch\<close>

lemma length_filter_eq_distinct:
  "distinct xs \<Longrightarrow> length (filter (\<lambda>j. j = a) xs) = (if a \<in> set xs then 1 else 0)"
  by (induction xs) auto

lemma hits_of_sample:
  assumes "distinct xs"
  shows "length (filter id (take k (map (\<lambda>j. int j = t) xs))) =
         (if 0 \<le> t \<and> nat t \<in> set (take k xs) then 1 else 0)"
proof -
  have "length (filter id (take k (map (\<lambda>j. int j = t) xs))) =
        length (filter (\<lambda>j. int j = t) (take k xs))"
    by (simp add: take_map filter_map comp_def)
  also have "\<dots> = (if 0 \<le> t \<and> nat t \<in> set (take k xs) then 1 else 0)"
  proof (cases "0 \<le> t")
    case True
    then have "(\<lambda>j. int j = t) = (\<lambda>j. j = nat t)" by auto
    with True assms show ?thesis by (simp add: length_filter_eq_distinct)
  next
    case False
    then have "filter (\<lambda>j. int j = t) (take k xs) = []"
      by (auto simp: filter_empty_conv)
    with False show ?thesis by simp
  qed
  finally show ?thesis .
qed

lemma hits_tie_free:
  assumes tk: "is_topk row maxk xs" and k: "k \<le> maxk" and tf: "tie_free k row t"
  shows "length (filter id (take k (map (\<lambda>j. int j = t) xs))) =
         (if among_topk k row t then 1 else 0)"
proof -
  from tk have d: "distinct xs" by (simp add: is_topk_def)
  have "(0 \<le> t \<and> nat t \<in> set (take k xs)) \<longleftrightarrow> among_topk k row t"
  proof
    assume "0 \<le> t \<and> nat t \<in> set (take k xs)"
    then show "among_topk k row t"
      using in_take_higher [OF tk k] by (simp add: among_topk_def)
  next
    assume a: "among_topk k row t"
    then have r: "0 \<le> t" "nat t < length row" "higher row (nat t) < k"
      by (simp_all add: among_topk_def)
    with tf a have "not_lower row (nat t) < k" by (simp add: tie_free_def surely_among_def)
    with r show "0 \<le> t \<and> nat t \<in> set (take k xs)"
      using not_lower_in_take [OF tk k] by simp
  qed
  then show ?thesis by (simp add: hits_of_sample [OF d])
qed


lemma sum_list_indicator:
  "sum_list (map (\<lambda>x. if P x then 1 else 0) xs) = length (filter P xs)"
  by (induction xs) auto

lemma correct_k_eq:
  assumes tk: "\<forall>row \<in> set output. is_topk row maxk (tk maxk row)" and k: "k \<le> maxk"
    and tf: "\<forall>(row, t) \<in> set (zip output target). tie_free k row t"
  shows "correct_k (map2 (\<lambda>p t. map (\<lambda>j. int j = t) p) (map (tk maxk) output) target) k =
         length (filter (\<lambda>(row, t). among_topk k row t) (zip output target))"
proof -
  have "map2 (\<lambda>p t. map (\<lambda>j. int j = t) p) (map (tk maxk) output) target =
        map (\<lambda>x. map (\<lambda>j. int j = snd x) (tk maxk (fst x))) (zip output target)"
    by (simp add: zip_map1 case_prod_unfold)
  then have "correct_k (map2 (\<lambda>p t. map (\<lambda>j. int j = t) p) (map (tk maxk) output) target) k =
        sum_list (map (\<lambda>x. length (filter id (take k (map (\<lambda>j. int j = snd x) (tk maxk (fst x))))))
                   (zip output target))"
    by (simp add: correct_k_def comp_def)
  also have "\<dots> = sum_list (map (\<lambda>x. if among_topk k (fst x) (snd x) then 1 else 0)
                               (zip output target))"
  proof (rule arg_cong [where f = sum_list], rule map_cong [OF refl])
    fix x assume x: "x \<in> set (zip output target)"
    then have "fst x \<in> set output" by (metis prod.collapse set_zip_leftD)
    with tk have a: "is_topk (fst x) maxk (tk maxk (fst x))" by simp
    have b: "tie_free k (fst x) (snd x)" using tf x by (auto simp: case_prod_unfold)
    show "length (filter id (take k (map (\<lambda>j. int j = snd x) (tk maxk (fst x))))) =
          (if among_topk k (fst x) (snd x) then 1 else 0)"
      by (rule hits_tie_free [OF a k b])
  qed
  also have "\<dots> = length (filter (\<lambda>x. among_topk k (fst x) (snd x)) (zip output target))"
    by (rule sum_list_indicator)
  finally show ?thesis by (simp add: case_prod_unfold)
qed

lemma maxk_fold: "topk \<noteq> [] \<Longrightarrow> fold max (tl topk) (hd topk) = Max (set topk)"
  by (cases topk) (simp_all add: Max.set_eq_fold [symmetric])

text \<open>
  C5. For a logits matrix with at least one row, a label vector with one label per row
  and requested \<open>k\<close>s that do not exceed the number of classes,
  \<^verbatim>\<open>accuracy\<close> returns, for each requested \<open>k\<close>, 100 times the fraction of
  samples whose true label is among the \<open>k\<close> highest-scoring classes of the sample's
  logits. This holds for every \<open>topk\<close> that keeps the library's promise, whatever it
  does with equal scores, on the batches where no label's place depends on the order of
  equal scores.
\<close>

theorem accuracy_is_topk_fraction:
  assumes "valid_topk tk"
    and "topk \<noteq> []"
    and "length target = length output"
    and "output \<noteq> []"
    and "\<forall>row \<in> set output. \<forall>k \<in> set topk. k \<le> length row"
    and "\<forall>(row, t) \<in> set (zip output target). \<forall>k \<in> set topk. tie_free k row t"
  shows "accuracy tk output target topk =
         Inr (map (\<lambda>k. 100 * topk_fraction k output target) topk)"
proof -
  let ?maxk = "fold max (tl topk) (hd topk)"
  have mk: "?maxk = Max (set topk)" using assms(2) by (rule maxk_fold)
  then have "?maxk \<in> set topk" using assms(2) by (simp add: Max_in)
  then have wide: "\<forall>row \<in> set output. ?maxk \<le> length row" using assms(5) by blast
  then have rows: "\<not> (\<exists>row \<in> set output. length row < ?maxk)" by (auto simp: not_less)
  from wide assms(1) have tk: "\<forall>row \<in> set output. is_topk row ?maxk (tk ?maxk row)"
    by (simp add: valid_topk_def)
  have le: "\<forall>k \<in> set topk. k \<le> ?maxk" using mk by simp
  have b: "length target \<noteq> 0" using assms(3,4) by simp
  have "accuracy tk output target topk =
        Inr (map (\<lambda>k. real (correct_k (map2 (\<lambda>p t. map (\<lambda>j. int j = t) p)
               (map (tk ?maxk) output) target) k) * (100 / real (length target))) topk)"
    using assms(2,3) rows b by (simp add: accuracy_def expand_target_def Let_def)
  also have "\<dots> = Inr (map (\<lambda>k. 100 * topk_fraction k output target) topk)"
  proof -
    have "\<forall>k \<in> set topk.
            correct_k (map2 (\<lambda>p t. map (\<lambda>j. int j = t) p) (map (tk ?maxk) output) target) k =
            length (filter (\<lambda>(row, t). among_topk k row t) (zip output target))"
    proof
      fix k assume k: "k \<in> set topk"
      with assms(6) have "\<forall>(row, t) \<in> set (zip output target). tie_free k row t" by auto
      with tk le k show "correct_k (map2 (\<lambda>p t. map (\<lambda>j. int j = t) p)
                            (map (tk ?maxk) output) target) k =
            length (filter (\<lambda>(row, t). among_topk k row t) (zip output target))"
        by (intro correct_k_eq) auto
    qed
    then show ?thesis by (simp add: topk_fraction_def)
  qed
  finally show ?thesis .
qed

subsection \<open>Batches with equal scores\<close>

text \<open>
  Where the place of a label does depend on the order of equal scores, the value lies
  between the fraction of labels that are among the \<open>k\<close> highest-scoring classes under
  every order and the fraction of those that are under some order.
\<close>

lemma hits_between:
  assumes tk: "is_topk row maxk xs" and k: "k \<le> maxk"
  shows "(if surely_among k row t then 1 else 0)
           \<le> length (filter id (take k (map (\<lambda>j. int j = t) xs)))"
    and "length (filter id (take k (map (\<lambda>j. int j = t) xs)))
           \<le> (if among_topk k row t then 1 else 0)"
proof -
  from tk have d: "distinct xs" by (simp add: is_topk_def)
  show "(if surely_among k row t then 1 else 0)
           \<le> length (filter id (take k (map (\<lambda>j. int j = t) xs)))"
    using not_lower_in_take [OF tk k, of "nat t"]
    by (simp add: hits_of_sample [OF d] surely_among_def)
  show "length (filter id (take k (map (\<lambda>j. int j = t) xs)))
           \<le> (if among_topk k row t then 1 else 0)"
    using in_take_higher [OF tk k, of "nat t"]
    by (simp add: hits_of_sample [OF d] among_topk_def)
qed

lemma correct_k_between:
  assumes tk: "\<forall>row \<in> set output. is_topk row maxk (tk maxk row)" and k: "k \<le> maxk"
  shows "length (filter (\<lambda>(row, t). surely_among k row t) (zip output target))
           \<le> correct_k (map2 (\<lambda>p t. map (\<lambda>j. int j = t) p) (map (tk maxk) output) target) k"
    and "correct_k (map2 (\<lambda>p t. map (\<lambda>j. int j = t) p) (map (tk maxk) output) target) k
           \<le> length (filter (\<lambda>(row, t). among_topk k row t) (zip output target))"
proof -
  let ?hits = "\<lambda>x. length (filter id (take k (map (\<lambda>j. int j = snd x) (tk maxk (fst x)))))"
  have "map2 (\<lambda>p t. map (\<lambda>j. int j = t) p) (map (tk maxk) output) target =
        map (\<lambda>x. map (\<lambda>j. int j = snd x) (tk maxk (fst x))) (zip output target)"
    by (simp add: zip_map1 case_prod_unfold)
  then have c: "correct_k (map2 (\<lambda>p t. map (\<lambda>j. int j = t) p) (map (tk maxk) output) target) k =
        sum_list (map ?hits (zip output target))"
    by (simp add: correct_k_def comp_def)
  have each: "is_topk (fst x) maxk (tk maxk (fst x))" if "x \<in> set (zip output target)" for x
  proof -
    from that have "fst x \<in> set output" by (metis prod.collapse set_zip_leftD)
    with tk show ?thesis by simp
  qed
  have "sum_list (map (\<lambda>x. if surely_among k (fst x) (snd x) then 1 else 0) (zip output target))
          \<le> sum_list (map ?hits (zip output target))"
    by (rule sum_list_mono) (rule hits_between(1) [OF each k])
  then show "length (filter (\<lambda>(row, t). surely_among k row t) (zip output target))
           \<le> correct_k (map2 (\<lambda>p t. map (\<lambda>j. int j = t) p) (map (tk maxk) output) target) k"
    unfolding c by (simp add: sum_list_indicator case_prod_unfold)
  have "sum_list (map ?hits (zip output target))
          \<le> sum_list (map (\<lambda>x. if among_topk k (fst x) (snd x) then 1 else 0) (zip output target))"
    by (rule sum_list_mono) (rule hits_between(2) [OF each k])
  then show "correct_k (map2 (\<lambda>p t. map (\<lambda>j. int j = t) p) (map (tk maxk) output) target) k
           \<le> length (filter (\<lambda>(row, t). among_topk k row t) (zip output target))"
    unfolding c by (simp add: sum_list_indicator case_prod_unfold)
qed

lemma accuracy_between:
  assumes "valid_topk tk"
    and "topk \<noteq> []"
    and "length target = length output"
    and "output \<noteq> []"
    and "\<forall>row \<in> set output. \<forall>k \<in> set topk. k \<le> length row"
  shows "\<exists>res. accuracy tk output target topk = Inr res \<and>
           list_all2 (\<lambda>k r. 100 * sure_fraction k output target \<le> r \<and>
                            r \<le> 100 * topk_fraction k output target) topk res"
proof -
  let ?maxk = "fold max (tl topk) (hd topk)"
  let ?c = "correct_k (map2 (\<lambda>p t. map (\<lambda>j. int j = t) p) (map (tk ?maxk) output) target)"
  have mk: "?maxk = Max (set topk)" using assms(2) by (rule maxk_fold)
  then have "?maxk \<in> set topk" using assms(2) by (simp add: Max_in)
  then have wide: "\<forall>row \<in> set output. ?maxk \<le> length row" using assms(5) by blast
  then have rows: "\<not> (\<exists>row \<in> set output. length row < ?maxk)" by (auto simp: not_less)
  from wide assms(1) have tk: "\<forall>row \<in> set output. is_topk row ?maxk (tk ?maxk row)"
    by (simp add: valid_topk_def)
  have le: "\<forall>k \<in> set topk. k \<le> ?maxk" using mk by simp
  have b: "0 < length target" using assms(3,4) by simp
  have r: "accuracy tk output target topk =
        Inr (map (\<lambda>k. real (?c k) * (100 / real (length target))) topk)"
    using assms(2,3) rows b by (simp add: accuracy_def expand_target_def Let_def)
  have "list_all2 (\<lambda>k r. 100 * sure_fraction k output target \<le> r \<and>
                          r \<le> 100 * topk_fraction k output target)
          topk (map (\<lambda>k. real (?c k) * (100 / real (length target))) topk)"
  proof (simp add: list_all2_map2 list_all2_same, intro ballI)
    fix k assume "k \<in> set topk"
    with le have k: "k \<le> ?maxk" by simp
    have lo: "length (filter (\<lambda>(row, t). surely_among k row t) (zip output target)) \<le> ?c k"
      using tk k by (rule correct_k_between(1))
    have hi: "?c k \<le> length (filter (\<lambda>(row, t). among_topk k row t) (zip output target))"
      using tk k by (rule correct_k_between(2))
    from lo b have "100 * sure_fraction k output target
                      \<le> real (?c k) * 100 / real (length target)"
      by (simp add: sure_fraction_def divide_right_mono)
    moreover from hi b have "real (?c k) * 100 / real (length target)
                      \<le> 100 * topk_fraction k output target"
      by (simp add: topk_fraction_def divide_right_mono)
    ultimately show "100 * sure_fraction k output target
                       \<le> real (?c k) * 100 / real (length target) \<and>
                     real (?c k) * 100 / real (length target)
                       \<le> 100 * topk_fraction k output target"
      by simp
  qed
  with r show ?thesis by simp
qed

subsection \<open>Sorting the indices by descending score keeps the promise of topk\<close>

lemma valid_topk_indices: "valid_topk topk_indices"
  unfolding valid_topk_def
proof (intro allI impI)
  fix k and row :: "real list"
  assume k: "k \<le> length row"
  let ?ys = "sort_key (\<lambda>j. - (row ! j)) [0..<length row]"
  have srt: "sorted_wrt (\<lambda>a b. row ! b \<le> row ! a) ?ys"
    using sorted_sort_key [of "\<lambda>j. - (row ! j)" "[0..<length row]"]
    by (simp add: sorted_map)
  have ys: "?ys = take k ?ys @ drop k ?ys" by simp
  have "sorted_wrt (\<lambda>a b. row ! b \<le> row ! a) (take k ?ys @ drop k ?ys)"
    using srt by simp
  then have cross: "\<forall>i \<in> set (take k ?ys). \<forall>j \<in> set (drop k ?ys). row ! j \<le> row ! i"
    and stk: "sorted_wrt (\<lambda>a b. row ! b \<le> row ! a) (take k ?ys)"
    by (simp_all only: sorted_wrt_append) auto
  have rest: "\<forall>j \<in> set [0..<length row]. j \<notin> set (take k ?ys) \<longrightarrow>
                (\<forall>i \<in> set (take k ?ys). row ! j \<le> row ! i)"
  proof (intro ballI impI)
    fix j i assume j: "j \<in> set [0..<length row]" "j \<notin> set (take k ?ys)"
      and i: "i \<in> set (take k ?ys)"
    from j(1) have "j \<in> set (take k ?ys @ drop k ?ys)" by simp
    with j(2) have "j \<in> set (drop k ?ys)" by (simp only: set_append) auto
    with cross i show "row ! j \<le> row ! i" by blast
  qed
  have "\<forall>i \<in> set (take k ?ys). i < length row" by (auto dest: in_set_takeD)
  with k stk rest show "is_topk row k (topk_indices k row)"
    by (simp add: is_topk_def topk_indices_def distinct_take)
qed

text \<open>
  A batch of three samples over three classes without equal scores: the labels are
  first, second and second in their rows.
\<close>

theorem accuracy_is_topk_fraction_witness:
  "accuracy topk_indices [[1, 7, 2], [5, 4, 0], [3, 2, 4]] [1, 1, 0] [1, 2] =
     Inr (map (\<lambda>k. 100 * topk_fraction k [[1, 7, 2], [5, 4, 0], [3, 2, 4]] [1, 1, 0]) [1, 2]) \<and>
   map (\<lambda>k. 100 * topk_fraction k [[1, 7, 2], [5, 4, 0], [3, 2, 4]] [1, 1, 0]) [1, 2] =
     [100 / 3, 100]"
proof
  have "list_all (\<lambda>(row, t). list_all (\<lambda>k. tie_free k row t) [1, 2])
          (zip [[1, 7, 2], [5, 4, 0], [3, 2, 4]] [1, 1, 0])"
    by code_simp
  then have tf: "\<forall>(row, t) \<in> set (zip [[1, 7, 2], [5, 4, 0], [3, 2, 4]] [1, 1, 0]).
                  \<forall>k \<in> set [1, 2]. tie_free k row t"
    by (simp only: list_all_iff case_prod_unfold)
  show "accuracy topk_indices [[1, 7, 2], [5, 4, 0], [3, 2, 4]] [1, 1, 0] [1, 2] =
     Inr (map (\<lambda>k. 100 * topk_fraction k [[1, 7, 2], [5, 4, 0], [3, 2, 4]] [1, 1, 0]) [1, 2])"
    by (rule accuracy_is_topk_fraction [OF valid_topk_indices _ _ _ _ tf]) simp_all
  show "map (\<lambda>k. 100 * topk_fraction k [[1, 7, 2], [5, 4, 0], [3, 2, 4]] [1, 1, 0]) [1, 2] =
     [100 / 3, 100]"
    by code_simp
qed

subsection \<open>More predictions never count fewer hits\<close>

lemma hits_mono:
  "k \<le> k' \<Longrightarrow> length (filter P (take k xs)) \<le> length (filter P (take k' xs))"
proof -
  assume "k \<le> k'"
  then obtain d where "k' = k + d" using le_Suc_ex by blast
  then show ?thesis by (simp add: take_add)
qed

lemma correct_k_mono: "k \<le> k' \<Longrightarrow> correct_k correct k \<le> correct_k correct k'"
  unfolding correct_k_def by (induction correct) (auto intro: add_mono hits_mono)

text \<open>
  C6. For every logits matrix and label vector, the top-5 accuracy that
  \<^verbatim>\<open>accuracy(output, target, topk=(1, 5))\<close> computes is at least the top-1
  accuracy it computes: whenever the call returns, it returns two values
  \<open>prec1 \<le> prec5\<close>; and it does return for every non-empty batch with one label per
  row and at least five classes.
\<close>

theorem top5_ge_top1:
  "(length target = length output \<and> output \<noteq> [] \<and> (\<forall>row \<in> set output. 5 \<le> length row)
      \<longrightarrow> (\<exists>res. accuracy tk output target [1, 5] = Inr res)) \<and>
   (\<forall>res. accuracy tk output target [1, 5] = Inr res \<longrightarrow>
      (\<exists>prec1 prec5. res = [prec1, prec5] \<and> prec1 \<le> prec5))"
proof (intro conjI allI impI)
  assume "length target = length output \<and> output \<noteq> [] \<and> (\<forall>row \<in> set output. 5 \<le> length row)"
  then show "\<exists>res. accuracy tk output target [1, 5] = Inr res"
    by (auto simp: accuracy_def expand_target_def Let_def not_less)
next
  fix res
  assume r: "accuracy tk output target [1, 5] = Inr res"
  let ?c = "\<lambda>tgt. map2 (\<lambda>p t. map (\<lambda>j. int j = t) p) (map (tk 5) output) tgt"
  from r obtain tgt where
    res: "res = [real (correct_k (?c tgt) 1) * (100 / real (length target)),
                 real (correct_k (?c tgt) 5) * (100 / real (length target))]"
    by (auto simp: accuracy_def Let_def split: if_splits sum.splits)
  have "correct_k (?c tgt) 1 \<le> correct_k (?c tgt) 5" by (rule correct_k_mono) simp
  then have "real (correct_k (?c tgt) 1) * (100 / real (length target))
           \<le> real (correct_k (?c tgt) 5) * (100 / real (length target))"
    by (intro mult_right_mono) simp_all
  with res show "\<exists>prec1 prec5. res = [prec1, prec5] \<and> prec1 \<le> prec5" by simp
qed

theorem top5_ge_top1_witness:
  "\<exists>prec1 prec5. accuracy topk_indices [[6, 5, 4, 3, 2, 1], [6, 5, 4, 3, 2, 1]] [0, 4] [1, 5] = Inr [prec1, prec5]
     \<and> prec1 \<le> prec5"
  using top5_ge_top1 [of "[0, 4]" "[[6, 5, 4, 3, 2, 1], [6, 5, 4, 3, 2, 1]]" topk_indices]
  by auto

section \<open>Properties of validate\<close>

subsection \<open>What one pass accumulates\<close>

lemma update_Inr_iff:
  "update m v n = Inr m' \<longleftrightarrow> count m + n \<noteq> 0 \<and> m' = accumulate m v n"
  by (auto simp: update_def accumulate_def Let_def)

lemma update_count: "update m v n = Inr m' \<Longrightarrow> count m' = count m + n"
  by (simp add: update_Inr_iff accumulate_def)

lemma record_metrics_Inr:
  assumes "record_metrics ms (l, p1, p5) n = Inr ms'"
  shows "losses ms' = accumulate (losses ms) l n"
    and "top1 ms' = accumulate (top1 ms) p1 n"
    and "top5 ms' = accumulate (top5 ms) p5 n"
    and "batch_time ms' = batch_time ms"
  using assms
  by (auto simp: record_metrics_def update_Inr_iff split: sum.splits)

lemma record_time_frame:
  assumes "record_time a i ms t = Inr ms'"
  shows "losses ms' = losses ms" and "top1 ms' = top1 ms" and "top5 ms' = top5 ms"
    and "count (batch_time ms') = count (batch_time ms) + 1"
  using assms
  by (auto simp: record_time_def split: sum.splits if_splits dest: update_count)

lemma validate_step_Inr:
  assumes "validate_step a tk model criterion i it ms = Inr ms'"
  obtains m ms1 where "local_metrics tk model criterion it = Inr m"
    and "record_metrics ms (reduce_metrics a m (others it)) (int (length (data it))) = Inr ms1"
    and "record_time a i ms1 (elapsed it) = Inr ms'"
  using assms by (auto simp: validate_step_def split: if_splits sum.splits)

lemma validate_step_count:
  assumes "validate_step a tk model criterion i it ms = Inr ms'"
  shows "count (losses ms') = count (losses ms) + int (length (data it))"
    and "count (top1 ms') = count (top1 ms) + int (length (data it))"
    and "count (top5 ms') = count (top5 ms) + int (length (data it))"
proof -
  from assms obtain m ms1 where
    rm: "record_metrics ms (reduce_metrics a m (others it)) (int (length (data it))) = Inr ms1"
    and rt: "record_time a i ms1 (elapsed it) = Inr ms'"
    by (rule validate_step_Inr)
  obtain l p1 p5 where m: "reduce_metrics a m (others it) = (l, p1, p5)"
    by (cases "reduce_metrics a m (others it)") auto
  note acc = record_metrics_Inr [OF rm [unfolded m]]
  show "count (losses ms') = count (losses ms) + int (length (data it))"
    using acc(1) record_time_frame(1) [OF rt] by (simp add: accumulate_def)
  show "count (top1 ms') = count (top1 ms) + int (length (data it))"
    using acc(2) record_time_frame(2) [OF rt] by (simp add: accumulate_def)
  show "count (top5 ms') = count (top5 ms) + int (length (data it))"
    using acc(3) record_time_frame(3) [OF rt] by (simp add: accumulate_def)
qed

lemma rows_yielded_Cons:
  "rows_yielded (Inr it # rest) = length (data it) + rows_yielded rest"
  by (simp add: rows_yielded_def)

lemma validate_loop_count:
  assumes "validate_loop a tk model criterion i val_loader ms = Inr ms'"
  shows "count (losses ms') = count (losses ms) + int (rows_yielded val_loader) \<and>
         count (top1 ms') = count (top1 ms) + int (rows_yielded val_loader) \<and>
         count (top5 ms') = count (top5 ms) + int (rows_yielded val_loader)"
  using assms
proof (induction a tk model criterion i val_loader ms rule: validate_loop.induct)
  case (1 a tk model criterion i ms)
  then show ?case by (simp add: rows_yielded_def)
next
  case (2 a tk model criterion i e rest ms)
  then show ?case by simp
next
  case (3 a tk model criterion i it rest ms)
  from "3.prems" obtain ms1 where
    st: "validate_step a tk model criterion i it ms = Inr ms1"
    and lp: "validate_loop a tk model criterion (Suc i) rest ms1 = Inr ms'"
    by (auto split: sum.splits)
  show ?case
    using "3.IH" [OF st lp] validate_step_count [OF st] by (simp add: rows_yielded_Cons)
qed

subsection \<open>A well-formed pass raises nothing\<close>

lemma accuracy_returns_pair:
  assumes "length target = length output" and "output \<noteq> []"
    and "\<forall>row \<in> set output. 5 \<le> length row"
  shows "\<exists>prec1 prec5. accuracy tk output target [1, 5] = Inr [prec1, prec5]"
  using assms by (auto simp: accuracy_def expand_target_def Let_def not_less)

lemma local_metrics_returns:
  assumes "well_formed_batch model criterion it"
  shows "\<exists>m. local_metrics tk model criterion it = Inr m"
proof -
  from assms obtain logits where
    o: "model (data it) = Inr logits" and lo: "length logits = length (data it)"
    and rows: "\<forall>row \<in> set logits. 5 \<le> length row"
    and c: "\<not> isl (criterion logits (label it))"
    by (auto simp: well_formed_batch_def split: sum.splits)
  from c obtain loss where l: "criterion logits (label it) = Inr loss"
    by (cases "criterion logits (label it)") auto
  from assms have "length (label it) = length logits" "logits \<noteq> []"
    using lo by (auto simp: well_formed_batch_def)
  with rows obtain prec1 prec5 where "accuracy tk logits (label it) [1, 5] = Inr [prec1, prec5]"
    using accuracy_returns_pair by blast
  with o l show ?thesis by (simp add: local_metrics_def)
qed

lemma update_returns: "0 \<le> count m \<Longrightarrow> 0 < n \<Longrightarrow> update m v n = Inr (accumulate m v n)"
  by (simp add: update_Inr_iff)

lemma record_metrics_returns:
  assumes "meters_ok ms" and "0 < n"
  shows "\<exists>ms1. record_metrics ms m n = Inr ms1 \<and> meters_ok ms1"
proof -
  obtain l p1 p5 where m: "m = (l, p1, p5)" by (cases m) auto
  have "record_metrics ms m n =
        Inr (ms\<lparr>losses := accumulate (losses ms) l n, top1 := accumulate (top1 ms) p1 n,
                 top5 := accumulate (top5 ms) p5 n\<rparr>)"
    using assms by (simp add: record_metrics_def m meters_ok_def update_returns)
  moreover have "meters_ok (ms\<lparr>losses := accumulate (losses ms) l n,
                 top1 := accumulate (top1 ms) p1 n, top5 := accumulate (top5 ms) p5 n\<rparr>)"
    using assms by (simp add: meters_ok_def accumulate_def)
  ultimately show ?thesis by simp
qed

lemma record_time_returns:
  assumes "meters_ok ms" and "0 < t" and "print_freq a \<noteq> 0"
  shows "\<exists>ms'. record_time a i ms t = Inr ms' \<and> meters_ok ms'"
proof -
  let ?bt = "accumulate (batch_time ms) t 1"
  have u: "update (batch_time ms) t 1 = Inr ?bt"
    using assms(1) by (simp add: update_returns meters_ok_def)
  have s: "0 < sum_m ?bt" and c: "0 < count ?bt"
    using assms(1,2) by (simp_all add: accumulate_def meters_ok_def add_nonneg_pos)
  then have "avg ?bt = sum_m ?bt / of_int (count ?bt)" by (simp add: accumulate_def)
  with s c have "avg ?bt \<noteq> 0" by simp
  moreover have "val ?bt \<noteq> 0" using assms(2) by (simp add: accumulate_def)
  ultimately have "record_time a i ms t = Inr (ms\<lparr>batch_time := ?bt\<rparr>)"
    using u assms(3) by (simp add: record_time_def)
  moreover have "meters_ok (ms\<lparr>batch_time := ?bt\<rparr>)"
    using assms(1) s c by (simp add: meters_ok_def)
  ultimately show ?thesis by simp
qed

lemma validate_step_returns:
  assumes "batch_size a \<noteq> 0" and "print_freq a \<noteq> 0"
    and "well_formed_batch model criterion it" and "meters_ok ms"
  shows "\<exists>ms'. validate_step a tk model criterion i it ms = Inr ms' \<and> meters_ok ms'"
proof -
  obtain m where m: "local_metrics tk model criterion it = Inr m"
    using local_metrics_returns [OF assms(3)] by blast
  have n: "0 < int (length (data it))" and t: "0 < elapsed it"
    using assms(3) by (auto simp: well_formed_batch_def)
  obtain ms1 where
    r: "record_metrics ms (reduce_metrics a m (others it)) (int (length (data it))) = Inr ms1"
    and ok1: "meters_ok ms1"
    using record_metrics_returns [OF assms(4) n] by blast
  obtain ms' where "record_time a i ms1 (elapsed it) = Inr ms'" and "meters_ok ms'"
    using record_time_returns [OF ok1 t assms(2)] by blast
  with m r assms(1) show ?thesis by (simp add: validate_step_def)
qed

lemma validate_loop_returns:
  assumes "batch_size a \<noteq> 0" and "print_freq a \<noteq> 0"
    and "well_formed_loader model criterion val_loader" and "meters_ok ms"
  shows "\<exists>ms'. validate_loop a tk model criterion i val_loader ms = Inr ms'"
  using assms(3,4)
proof (induction val_loader arbitrary: i ms)
  case Nil
  then show ?case by simp
next
  case (Cons f rest)
  from Cons.prems(1) obtain it where f: "f = Inr it"
    and wf: "well_formed_batch model criterion it"
    and rest: "well_formed_loader model criterion rest"
    by (cases f) (auto simp: well_formed_loader_def)
  obtain ms1 where s: "validate_step a tk model criterion i it ms = Inr ms1" and ok: "meters_ok ms1"
    using validate_step_returns [OF assms(1,2) wf Cons.prems(2)] by blast
  from Cons.IH [OF rest ok] s f show ?case by simp
qed

lemma meters_ok_fresh: "meters_ok fresh_meters"
  by (simp add: meters_ok_def fresh_meters_def reset_def)

subsection \<open>The accumulated weight\<close>

lemma rows_yielded_rows_of: "rows_yielded val_loader = length (rows_of val_loader)"
  by (induction val_loader)
     (auto simp: rows_yielded_def rows_of_def split: sum.splits)

lemma count_fresh:
  assumes "validate_loop a tk model criterion 0 val_loader fresh_meters = Inr ms'"
  shows "count (losses ms') = int (length (rows_of val_loader))"
    and "count (top1 ms') = int (length (rows_of val_loader))"
    and "count (top5 ms') = int (length (rows_of val_loader))"
  using validate_loop_count [OF assms]
  by (simp_all add: fresh_meters_def reset_def rows_yielded_rows_of)

text \<open>
  A pass over a well-formed loader runs to its end, and a pass that has run to its end
  leaves in each metric meter the number of rows that were yielded: every yielded row
  weighs 1, padding or not, and a row that is not yielded weighs nothing.
\<close>

lemma count_is_rows_yielded:
  "(batch_size a \<noteq> 0 \<and> print_freq a \<noteq> 0 \<and> well_formed_loader model criterion val_loader
      \<longrightarrow> (\<exists>ms'. validate_loop a tk model criterion 0 val_loader fresh_meters = Inr ms')) \<and>
   (\<forall>ms'. validate_loop a tk model criterion 0 val_loader fresh_meters = Inr ms' \<longrightarrow>
      count (losses ms') = int (rows_yielded val_loader) \<and>
      count (top1 ms') = int (rows_yielded val_loader) \<and>
      count (top5 ms') = int (rows_yielded val_loader))"
  using validate_loop_returns [of a model criterion val_loader fresh_meters tk 0]
    meters_ok_fresh count_fresh [of a tk model criterion val_loader]
  by (auto simp: rows_yielded_rows_of)

subsection \<open>The shards cut the dataset\<close>


lemma length_shard: "length (shard T W S) = Suc S * T div W - S * T div W"
  by (simp add: shard_def)





text \<open>The \<open>others\<close> of the three ranks are what the ranks compute locally.\<close>

lemma three_ranks_local_metrics:
  "local_metrics topk_indices example_model example_criterion
     (projr (hd (snd (three_ranks ! 0)))) = Inr (25 / 2, 200 / 3, 100) \<and>
   local_metrics topk_indices example_model example_criterion
     (projr (hd (snd (three_ranks ! 1)))) = Inr (25 / 2, 200 / 3, 100) \<and>
   local_metrics topk_indices example_model example_criterion
     (projr (hd (snd (three_ranks ! 2)))) = Inr (25 / 2, 50, 75)"
  by code_simp



subsection \<open>The cross-rank reduction\<close>

lemma sum_list_scaled: "sum_list (map (\<lambda>x. x * c) xs) = sum_list xs * (c::real)"
  by (induction xs) (simp_all add: algebra_simps)

text \<open>
  Where every rank has the same batch size \<open>n\<close>, the unweighted mean is the weighted
  average of the ranks' values.
\<close>

lemma reduce_tensor_equal_sizes:
  assumes "n \<noteq> 0" and "world_size a \<noteq> 0"
  shows "reduce_tensor a v vs =
         (v * n + sum_list (map (\<lambda>x. x * n) vs)) / (n * real (world_size a))"
  using assms by (simp add: reduce_tensor_def sum_list_scaled field_simps)

text \<open>
  C1 (as the code has it). In distributed mode each of the three values of a batch
  (loss, prec1, prec5) is replaced by the sum over the ranks divided by
  \<^verbatim>\<open>world_size\<close>, the unweighted mean of the ranks' batch values, and the rank
  then accumulates that mean in its own meter with its own batch size as the weight.
  The sums and counts of the meters are not reduced.
\<close>

theorem reduce_is_unweighted_mean:
  assumes "distributed a"
    and "local_metrics tk model criterion it = Inr (loss, prec1, prec5)"
    and "validate_step a tk model criterion i it ms = Inr ms'"
  shows "losses ms' = accumulate (losses ms)
           ((loss + sum_list (map fst (others it))) / real (world_size a))
           (int (length (data it))) \<and>
         top1 ms' = accumulate (top1 ms)
           ((prec1 + sum_list (map (fst \<circ> snd) (others it))) / real (world_size a))
           (int (length (data it))) \<and>
         top5 ms' = accumulate (top5 ms)
           ((prec5 + sum_list (map (snd \<circ> snd) (others it))) / real (world_size a))
           (int (length (data it)))"
proof -
  let ?m = "reduce_metrics a (loss, prec1, prec5) (others it)"
  from assms(2,3) obtain ms1 where
    rm: "record_metrics ms ?m (int (length (data it))) = Inr ms1"
    and rt: "record_time a i ms1 (elapsed it) = Inr ms'"
    by (auto elim: validate_step_Inr)
  have m: "?m = ((loss + sum_list (map fst (others it))) / real (world_size a),
                 (prec1 + sum_list (map (fst \<circ> snd) (others it))) / real (world_size a),
                 (prec5 + sum_list (map (snd \<circ> snd) (others it))) / real (world_size a))"
    using assms(1) by (simp add: reduce_metrics_def reduce_tensor_def)
  show ?thesis
    using record_metrics_Inr(1-3) [OF rm [unfolded m]] record_time_frame(1-3) [OF rt] by simp
qed

text \<open>Rank B of the two-rank run: mean loss 8.75, mean prec1 75, weight 8.\<close>

theorem reduce_is_unweighted_mean_witness:
  "\<exists>ms'. validate_step (fst rank_B) topk_indices example_model example_criterion 0 (snd rank_B) fresh_meters
            = Inr ms' \<and>
         losses ms' = accumulate reset (35 / 4) 8 \<and>
         top1 ms' = accumulate reset 75 8 \<and>
         top5 ms' = accumulate reset 100 8"
proof -
  have d: "distributed (fst rank_B)" by (simp add: rank_B_def)
  have l: "local_metrics topk_indices example_model example_criterion (snd rank_B) = Inr (25 / 2, 50, 100)"
    by code_simp
  have "\<not> isl (validate_step (fst rank_B) topk_indices example_model example_criterion 0 (snd rank_B) fresh_meters)"
    by code_simp
  then obtain ms' where
    s: "validate_step (fst rank_B) topk_indices example_model example_criterion 0 (snd rank_B) fresh_meters = Inr ms'"
    by (cases "validate_step (fst rank_B) topk_indices example_model example_criterion 0 (snd rank_B) fresh_meters")
       auto
  from reduce_is_unweighted_mean [OF d l s] s show ?thesis
    by (simp add: rank_B_def fresh_meters_def)
qed

text \<open>
  C1 as stated fails: rank A holds (sum = 10, count = 2), rank B holds (sum = 100,
  count = 8); after the reduction the average loss of both ranks is 8.75, the average
  of the two per-rank averages, and not 11.
\<close>

theorem reduced_average_is_not_weighted:
  "local_metrics topk_indices example_model example_criterion (snd rank_A) = Inr (5, 100, 100) \<and>
   local_metrics topk_indices example_model example_criterion (snd rank_B) = Inr (25 / 2, 50, 100) \<and>
   map_sum id (avg \<circ> losses)
     (validate_step (fst rank_A) topk_indices example_model example_criterion 0 (snd rank_A) fresh_meters) =
     Inr (35 / 4) \<and>
   map_sum id (avg \<circ> losses)
     (validate_step (fst rank_B) topk_indices example_model example_criterion 0 (snd rank_B) fresh_meters) =
     Inr (35 / 4) \<and>
   map_sum id (avg \<circ> losses)
     (validate_step (fst rank_A) topk_indices example_model example_criterion 0 (snd rank_A) fresh_meters) \<noteq>
     Inr 11"
  by code_simp

subsection \<open>Exceptions of the loader\<close>

lemma loader_exception_loop:
  "validate_loop a tk model criterion i (pre @ Inl e # post) ms =
     (case validate_loop a tk model criterion i pre ms of Inl e' \<Rightarrow> Inl e' | Inr ms' \<Rightarrow> Inl e)"
  by (induction a tk model criterion i pre ms rule: validate_loop.induct)
     (auto split: sum.splits)

text \<open>
  C9 (as the code has it). When the loader raises while producing a batch (as the
  pipeline does on a sample it cannot decode), the exception leaves
  \<^verbatim>\<open>validate\<close>: the run ends with it (or with an earlier exception), whatever
  batches would have followed. The harness substitutes nothing and records nothing.
\<close>

theorem loader_exception_leaves_validate:
  "validate a tk model criterion (pre @ Inl e # post) =
     (case validate a tk model criterion pre of Inl e' \<Rightarrow> Inl e' | Inr r \<Rightarrow> Inl e)"
  by (simp add: validate_def loader_exception_loop split: sum.splits)

theorem loader_exception_leaves_validate_witness:
  "validate (fst rank_B) topk_indices example_model example_criterion ([Inr (snd rank_B)] @ [Inl RuntimeError])
     = Inl RuntimeError"
proof -
  have "validate (fst rank_B) topk_indices example_model example_criterion [Inr (snd rank_B)] = Inr [75, 100]"
    by code_simp
  with loader_exception_leaves_validate
         [of "fst rank_B" topk_indices example_model example_criterion "[Inr (snd rank_B)]" RuntimeError "[]"]
  show ?thesis by simp
qed

text \<open>
  C9 as stated fails: the loader raises on its second batch, and the run of a single
  process ends with that exception; the third batch is never evaluated.
\<close>

theorem undecodable_sample_ends_run:
  "validate single_process topk_indices example_model example_criterion
     [Inr first_batch, Inl RuntimeError, Inr second_batch] = Inl RuntimeError"
  by code_simp

section \<open>Properties of resume\<close>

text \<open>
  C8. When the path names a regular file that \<^verbatim>\<open>torch.load\<close> reads as a
  checkpoint with the four keys and both \<^verbatim>\<open>load_state_dict\<close> calls accept
  their state, \<^verbatim>\<open>resume\<close> returns the run state with the epoch and the best
  metric of the checkpoint and with the model and the optimizer loaded from it. When
  nothing is at the path, \<^verbatim>\<open>resume\<close> raises nothing and returns the run state
  unchanged.
\<close>

theorem resume_restores_or_skips:
  "(fs path = Some (RegularFile blob) \<and> torch_load blob = Inr checkpoint \<and>
    checkpoint ''epoch'' = Some ep \<and> checkpoint ''best_prec1'' = Some bp \<and>
    checkpoint ''state_dict'' = Some sd \<and> checkpoint ''optimizer'' = Some od \<and>
    load_model (model_obj st) sd = Inr m' \<and> load_optimizer (optimizer_obj st) od = Inr o'
    \<longrightarrow> resume path fs torch_load load_model load_optimizer st =
          Inr \<lparr>start_epoch = ep, best_prec1 = bp, model_obj = m', optimizer_obj = o'\<rparr>) \<and>
   (fs path = None
    \<longrightarrow> resume path fs torch_load load_model load_optimizer st = Inr st)"
  by (simp add: resume_def)

theorem resume_restores_or_skips_witness:
  "resume ''checkpoint.pth.tar'' example_fs example_load example_load_state example_load_state
     \<lparr>start_epoch = 0, best_prec1 = 0, model_obj = 1, optimizer_obj = 2\<rparr> =
     Inr \<lparr>start_epoch = 3, best_prec1 = 71, model_obj = 11, optimizer_obj = 13\<rparr> \<and>
   resume ''missing.pth.tar'' example_fs example_load example_load_state example_load_state
     \<lparr>start_epoch = 0, best_prec1 = 0, model_obj = 1, optimizer_obj = 2\<rparr> =
     Inr \<lparr>start_epoch = 0, best_prec1 = 0, model_obj = 1, optimizer_obj = 2\<rparr>"
  using
    resume_restores_or_skips
      [where fs = example_fs and path = "''checkpoint.pth.tar''" and blob = 7
         and torch_load = example_load and checkpoint = example_checkpoint
         and ep = 3 and bp = 71 and sd = 11 and od = 13
         and load_model = example_load_state and load_optimizer = example_load_state
         and st = "\<lparr>start_epoch = 0, best_prec1 = 0, model_obj = 1, optimizer_obj = 2\<rparr>"
         and m' = 11 and o' = 13]
    resume_restores_or_skips
      [where fs = example_fs and path = "''missing.pth.tar''"
         and torch_load = example_load
         and load_model = example_load_state and load_optimizer = example_load_state
         and st = "\<lparr>start_epoch = 0, best_prec1 = 0, model_obj = 1, optimizer_obj = 2\<rparr>"]
  by (simp add: example_fs_def example_load_def example_checkpoint_def example_load_state_def)

end
